theory Spec2Isabelle
  imports Main
begin

section \<open>Cards and the deck (gameLogic.js)\<close>

text \<open>
  The card utilities of \<^verbatim>\<open>src/gameLogic.js\<close>. A card object
  \<^verbatim>\<open>{ suit, rank, faceUp }\<close> is a record; the strings of \<^verbatim>\<open>SUITS\<close> and
  \<^verbatim>\<open>RANKS\<close> are the constructors of two datatypes, in the order of the source arrays.
  JavaScript numbers are modelled as unbounded integers (all amounts of the program are
  integers far below \<open>2^53\<close>).
\<close>

datatype suit = Hearts | Diamonds | Clubs | Spades

datatype rank = R2 | R3 | R4 | R5 | R6 | R7 | R8 | R9 | R10 | RJ | RQ | RK | RA

record card =
  suit :: suit
  rank :: rank
  faceUp :: bool

definition SUITS :: "suit list" where
  "SUITS = [Hearts, Diamonds, Clubs, Spades]"

definition RANKS :: "rank list" where
  "RANKS = [R2, R3, R4, R5, R6, R7, R8, R9, R10, RJ, RQ, RK, RA]"

fun RANK_VALUES :: "rank \<Rightarrow> int" where
  "RANK_VALUES R2 = 2"
| "RANK_VALUES R3 = 3"
| "RANK_VALUES R4 = 4"
| "RANK_VALUES R5 = 5"
| "RANK_VALUES R6 = 6"
| "RANK_VALUES R7 = 7"
| "RANK_VALUES R8 = 8"
| "RANK_VALUES R9 = 9"
| "RANK_VALUES R10 = 10"
| "RANK_VALUES RJ = 11"
| "RANK_VALUES RQ = 12"
| "RANK_VALUES RK = 13"
| "RANK_VALUES RA = 14"

text \<open>The table \<^verbatim>\<open>HAND_RANKINGS\<close>.\<close>

definition HIGH_CARD :: int where "HIGH_CARD = 1"
definition PAIR :: int where "PAIR = 2"
definition TWO_PAIR :: int where "TWO_PAIR = 3"
definition THREE_OF_A_KIND :: int where "THREE_OF_A_KIND = 4"
definition STRAIGHT :: int where "STRAIGHT = 5"
definition FLUSH :: int where "FLUSH = 6"
definition FULL_HOUSE :: int where "FULL_HOUSE = 7"
definition FOUR_OF_A_KIND :: int where "FOUR_OF_A_KIND = 8"
definition STRAIGHT_FLUSH :: int where "STRAIGHT_FLUSH = 9"
definition ROYAL_FLUSH :: int where "ROYAL_FLUSH = 10"

lemmas HAND_RANKINGS_defs =
  HIGH_CARD_def PAIR_def TWO_PAIR_def THREE_OF_A_KIND_def STRAIGHT_def FLUSH_def
  FULL_HOUSE_def FOUR_OF_A_KIND_def STRAIGHT_FLUSH_def ROYAL_FLUSH_def

definition createDeck :: "card list" where
  "createDeck =
     concat (map (\<lambda>s. map (\<lambda>r. \<lparr>suit = s, rank = r, faceUp = False\<rparr>) RANKS) SUITS)"

text \<open>
  \<^verbatim>\<open>Array.prototype.slice\<close> turns a negative relative index \<open>k\<close> into
  \<open>max (len + k) 0\<close> and clamps a non-negative one to \<open>len\<close>.
\<close>

definition slice_index :: "'a list \<Rightarrow> int \<Rightarrow> nat" where
  "slice_index xs k =
     (if k < 0 then nat (max (int (length xs) + k) 0) else min (nat k) (length xs))"

definition slice :: "'a list \<Rightarrow> int \<Rightarrow> int \<Rightarrow> 'a list" where
  "slice xs from until = drop (slice_index xs from) (take (slice_index xs until) xs)"

definition slice_from :: "'a list \<Rightarrow> int \<Rightarrow> 'a list" where
  "slice_from xs from = drop (slice_index xs from) xs"

text \<open>
  \<^verbatim>\<open>dealCards(deck, count)\<close> returns the object \<^verbatim>\<open>{ cards, remainingDeck }\<close>,
  here the pair \<open>(cards, remainingDeck)\<close>. It has no failing branch.
\<close>

definition dealCards :: "card list \<Rightarrow> int \<Rightarrow> card list \<times> card list" where
  "dealCards deck count = (slice deck 0 count, slice_from deck count)"

section \<open>Hand evaluation (gameLogic.js)\<close>

text \<open>
  \<^verbatim>\<open>Array.prototype.sort\<close> with a comparison function is stable (ECMAScript 2019);
  with a consistent comparator its result is the one of a stable insertion sort. An
  element \<open>x\<close> goes before the first \<open>y\<close> that it does not have to follow
  (\<open>cmp x y \<le> 0\<close>).
\<close>

fun insert_by :: "('a \<Rightarrow> 'a \<Rightarrow> int) \<Rightarrow> 'a \<Rightarrow> 'a list \<Rightarrow> 'a list" where
  "insert_by cmp x [] = [x]"
| "insert_by cmp x (y # ys) =
     (if cmp x y \<le> 0 then x # y # ys else y # insert_by cmp x ys)"

definition sort_by :: "('a \<Rightarrow> 'a \<Rightarrow> int) \<Rightarrow> 'a list \<Rightarrow> 'a list" where
  "sort_by cmp xs = foldr (insert_by cmp) xs []"

definition sortByRank :: "card list \<Rightarrow> card list" where
  "sortByRank cards = sort_by (\<lambda>a b. RANK_VALUES (rank b) - RANK_VALUES (rank a)) cards"

text \<open>
  A JavaScript \<^verbatim>\<open>Map\<close> iterates in insertion order, and \<^verbatim>\<open>set\<close> on a key
  that is present keeps the key's position: an association list, extended at its end.
\<close>

fun group_add :: "'k \<Rightarrow> 'v \<Rightarrow> ('k \<times> 'v list) list \<Rightarrow> ('k \<times> 'v list) list" where
  "group_add k c [] = [(k, [c])]"
| "group_add k c ((k', g) # rest) =
     (if k = k' then (k', g @ [c]) # rest else (k', g) # group_add k c rest)"

definition groupBySuit :: "card list \<Rightarrow> (suit \<times> card list) list" where
  "groupBySuit cards = foldl (\<lambda>groups c. group_add (suit c) c groups) [] cards"

definition groupByRank :: "card list \<Rightarrow> (rank \<times> card list) list" where
  "groupByRank cards = foldl (\<lambda>groups c. group_add (rank c) c groups) [] cards"

definition findFlush :: "card list \<Rightarrow> card list option" where
  "findFlush cards =
     (case List.find (\<lambda>(s, suited). length suited \<ge> 5) (groupBySuit cards) of
        Some (s, suited) \<Rightarrow> Some (slice (sortByRank suited) 0 5)
      | None \<Rightarrow> None)"

text \<open>
  \<^verbatim>\<open>findStraight\<close>: \<open>uniqueRanks\<close> keeps the first card of every rank value and,
  when an ace is present, the first ace under the key 1 as well. The outer loop over
  \<open>i \<le> values.length - 5\<close> returns at the first \<open>i\<close> whose five entries
  \<open>values[i], values[i+1], ...\<close> descend by one. Every expected value that is
  looked up equals \<open>values[i + j]\<close>, a key of the map.
\<close>

fun unique_add :: "int \<Rightarrow> card \<Rightarrow> (int \<times> card) list \<Rightarrow> (int \<times> card) list" where
  "unique_add v c [] = [(v, c)]"
| "unique_add v c ((v', c') # rest) =
     (if v = v' then (v', c') # rest else (v', c') # unique_add v c rest)"

fun map_set :: "int \<Rightarrow> card \<Rightarrow> (int \<times> card) list \<Rightarrow> (int \<times> card) list" where
  "map_set v c [] = [(v, c)]"
| "map_set v c ((v', c') # rest) =
     (if v = v' then (v', c) # rest else (v', c') # map_set v c rest)"

definition uniqueRanks :: "card list \<Rightarrow> (int \<times> card) list" where
  "uniqueRanks cards =
     (let u = foldl (\<lambda>m c. unique_add (RANK_VALUES (rank c)) c m) [] cards
      in case List.find (\<lambda>c. rank c = RA) cards of
           Some ace \<Rightarrow> map_set 1 ace u
         | None \<Rightarrow> u)"

definition isSequence :: "int list \<Rightarrow> nat \<Rightarrow> bool" where
  "isSequence values i = list_all (\<lambda>j. values ! (i + j) = values ! i - int j) [0..<5]"

definition findStraight :: "card list \<Rightarrow> card list option" where
  "findStraight cards =
     (let u = uniqueRanks cards;
          values = sort_by (\<lambda>a b. b - a) (map fst u)
      in case List.find (isSequence values) [0..<length values - 4] of
           Some i \<Rightarrow> Some (List.map_filter (\<lambda>j. map_of u (values ! i - int j)) [0..<5])
         | None \<Rightarrow> None)"

definition findStraightFlush :: "card list \<Rightarrow> card list option" where
  "findStraightFlush cards =
     (case List.find (\<lambda>(s, suited). length suited \<ge> 5 \<and> findStraight suited \<noteq> None)
             (groupBySuit cards) of
        Some (s, suited) \<Rightarrow> findStraight suited
      | None \<Rightarrow> None)"

text \<open>
  The result object \<^verbatim>\<open>{ rank, name, cards, kickers }\<close> of \<^verbatim>\<open>evaluateHand\<close>; the
  fields \<open>rank\<close>, \<open>name\<close> and \<open>cards\<close> carry the suffix \<open>_h\<close>, since a card has a
  \<open>rank\<close> and a player has \<open>cards\<close> and a \<open>name\<close> too.
\<close>

record hand =
  rank_h :: int
  name_h :: string
  cards_h :: "card list"
  kickers :: "card list"

definition groups_of_size :: "nat \<Rightarrow> (rank \<times> card list) list \<Rightarrow> card list list" where
  "groups_of_size n byRank =
     sort_by (\<lambda>a b. RANK_VALUES (rank (hd b)) - RANK_VALUES (rank (hd a)))
       (filter (\<lambda>g. length g = n) (map snd byRank))"

definition evaluateHand :: "card list \<Rightarrow> card list \<Rightarrow> hand" where
  "evaluateHand holeCards communityCards =
     (let allCards = holeCards @ communityCards;
          sorted = sortByRank allCards;
          byRank = groupByRank allCards
      in case findStraightFlush allCards of
        Some straightFlush \<Rightarrow>
          (let isRoyal = (RANK_VALUES (rank (hd straightFlush)) = 14)
           in \<lparr>rank_h = (if isRoyal then ROYAL_FLUSH else STRAIGHT_FLUSH),
               name_h = (if isRoyal then ''Royal Flush'' else ''Straight Flush''),
               cards_h = straightFlush, kickers = []\<rparr>)
      | None \<Rightarrow>
          (let pairs = groups_of_size 2 byRank;
               threes = groups_of_size 3 byRank;
               fours = groups_of_size 4 byRank
           in if length fours > 0 then
                \<lparr>rank_h = FOUR_OF_A_KIND, name_h = ''Four of a Kind'', cards_h = hd fours,
                 kickers = slice (filter (\<lambda>c. rank c \<noteq> rank (hd (hd fours))) sorted) 0 1\<rparr>
              else if length threes > 0 \<and> (length pairs > 0 \<or> length threes > 1) then
                \<lparr>rank_h = FULL_HOUSE, name_h = ''Full House'',
                 cards_h = hd threes @
                   (if length threes > 1 then slice (threes ! 1) 0 2 else hd pairs),
                 kickers = []\<rparr>
              else case findFlush allCards of
                Some flush \<Rightarrow>
                  \<lparr>rank_h = FLUSH, name_h = ''Flush'', cards_h = flush, kickers = []\<rparr>
              | None \<Rightarrow>
                 (case findStraight allCards of
                    Some straight \<Rightarrow>
                      \<lparr>rank_h = STRAIGHT, name_h = ''Straight'', cards_h = straight,
                       kickers = []\<rparr>
                  | None \<Rightarrow>
                     if length threes > 0 then
                       \<lparr>rank_h = THREE_OF_A_KIND, name_h = ''Three of a Kind'',
                        cards_h = hd threes,
                        kickers =
                          slice (filter (\<lambda>c. rank c \<noteq> rank (hd (hd threes))) sorted) 0 2\<rparr>
                     else if length pairs \<ge> 2 then
                       \<lparr>rank_h = TWO_PAIR, name_h = ''Two Pair'',
                        cards_h = hd pairs @ pairs ! 1,
                        kickers =
                          slice (filter (\<lambda>c. rank c \<notin> set [rank (hd (hd pairs)),
                                                             rank (hd (pairs ! 1))]) sorted) 0 1\<rparr>
                     else if length pairs = 1 then
                       \<lparr>rank_h = PAIR, name_h = ''Pair'', cards_h = hd pairs,
                        kickers =
                          slice (filter (\<lambda>c. rank c \<noteq> rank (hd (hd pairs))) sorted) 0 3\<rparr>
                     else
                       \<lparr>rank_h = HIGH_CARD, name_h = ''High Card'',
                        cards_h = slice sorted 0 1, kickers = slice sorted 1 5\<rparr>)))"

text \<open>
  \<^verbatim>\<open>compareHands\<close>: the two loops stop at the shorter of the two lists, which
  \<open>zip\<close> does as well; the first non-zero difference is returned.
\<close>

fun first_diff :: "(card \<times> card) list \<Rightarrow> int option" where
  "first_diff [] = None"
| "first_diff ((a, b) # rest) =
     (let diff = RANK_VALUES (rank a) - RANK_VALUES (rank b)
      in if diff \<noteq> 0 then Some diff else first_diff rest)"

definition compareHands :: "hand \<Rightarrow> hand \<Rightarrow> int" where
  "compareHands hand1 hand2 =
     (if rank_h hand1 \<noteq> rank_h hand2 then rank_h hand1 - rank_h hand2
      else case first_diff (zip (cards_h hand1) (cards_h hand2)) of
        Some diff \<Rightarrow> diff
      | None \<Rightarrow>
         (case first_diff (zip (kickers hand1) (kickers hand2)) of
            Some diff \<Rightarrow> diff
          | None \<Rightarrow> 0))"

section \<open>Players and the game state (index.js)\<close>

text \<open>
  A player object and the game state object of \<^verbatim>\<open>src/index.js\<close>. Both are
  polymorphic in what they hold as cards, since \<^verbatim>\<open>getPlayerView\<close> builds objects
  of the same shape with other cards and without a deck. The player's fields
  \<^verbatim>\<open>id\<close> and \<^verbatim>\<open>currentBet\<close> are \<open>id_p\<close> and \<open>currentBet_p\<close> (\<open>id\<close> is
  a constant of HOL, \<open>currentBet\<close> is the table's field as well).
\<close>

record 'c player =
  id_p :: string
  socketId :: string
  name :: string
  chips :: int
  cards :: "'c list"
  currentBet_p :: int
  folded :: bool
  isAllIn :: bool
  hasActed :: bool
  isConnected :: bool

datatype phase = Preflop | Flop | Turn | River | Showdown

record ('c, 'd) game_state =
  players :: "'c player list"
  communityCards :: "card list"
  pot :: int
  currentPlayerIndex :: nat
  dealerIndex :: nat
  phase :: phase
  currentBet :: int
  minRaise :: int
  deck :: 'd
  winner :: "(string \<times> string) option"
  winningHand :: "string option"

type_synonym state = "(card, card list) game_state"

definition INITIAL_CHIPS :: int where "INITIAL_CHIPS = 1000"
definition SMALL_BLIND :: int where "SMALL_BLIND = 10"
definition BIG_BLIND :: int where "BIG_BLIND = 20"

text \<open>
  What a call can end in besides a returned state. \<open>TypeError\<close>: the source reads a
  property of \<^verbatim>\<open>undefined\<close> and throws. \<open>Diverges\<close>: a \<^verbatim>\<open>while\<close> loop of the
  source never ends. \<open>UndefinedCard\<close>: the source goes on with a community card built
  from \<^verbatim>\<open>{ ...undefined, faceUp: true }\<close>, an object with neither suit nor rank, which
  the record \<open>card\<close> cannot hold; what follows is outside this model.
\<close>

datatype error = TypeError | Diverges | UndefinedCard

subsection \<open>createGameState\<close>

text \<open>
  The \<^verbatim>\<open>map\<close> over \<^verbatim>\<open>room.players\<close> deals two cards to each player in turn from
  the deck it threads through.
\<close>

fun dealHoleCards :: "card player list \<Rightarrow> card list \<Rightarrow> card player list \<times> card list" where
  "dealHoleCards [] dk = ([], dk)"
| "dealHoleCards (player # rest) dk =
     (let (cs, remainingDeck) = dealCards dk 2;
          (dealt, deck') = dealHoleCards rest remainingDeck
      in (player\<lparr>cards := cs, currentBet_p := 0, folded := False, isAllIn := False,
                  hasActed := False\<rparr> # dealt, deck'))"

text \<open>
  The three statements that post one blind: \<^verbatim>\<open>chips -= amount\<close>,
  \<^verbatim>\<open>currentBet = amount\<close>, and \<^verbatim>\<open>isAllIn = true\<close> when the chips are then 0.
\<close>

definition postBlind :: "card player list \<Rightarrow> nat \<Rightarrow> int \<Rightarrow> card player list" where
  "postBlind ps i amount =
     (let p = (ps ! i)\<lparr>chips := chips (ps ! i) - amount, currentBet_p := amount\<rparr>
      in ps[i := (if chips p = 0 then p\<lparr>isAllIn := True\<rparr> else p)])"

text \<open>
  \<^verbatim>\<open>createGameState(room)\<close> reads \<^verbatim>\<open>room.players\<close> and
  \<^verbatim>\<open>room.gameState?.dealerIndex\<close> (\<open>None\<close> when there is no earlier hand); the deck
  that \<^verbatim>\<open>shuffleDeck(createDeck())\<close> draws with \<^verbatim>\<open>Math.random\<close> is the parameter
  \<open>shuffled\<close>. With no player, \<^verbatim>\<open>players[sbIndex]\<close> is undefined and reading its
  chips throws. Both blind amounts are computed before either is posted.
\<close>

definition createGameState :: "card player list \<Rightarrow> nat option \<Rightarrow> card list \<Rightarrow> error + state" where
  "createGameState roomPlayers previousDealerIndex shuffled =
     (let (dealt, deck') = dealHoleCards roomPlayers shuffled
      in if dealt = [] then Inl TypeError
         else
           let dealerIdx = (case previousDealerIndex of
                              Some d \<Rightarrow> (d + 1) mod length dealt
                            | None \<Rightarrow> 0);
               sbIndex = dealerIdx;
               bbIndex = (dealerIdx + 1) mod length dealt;
               sbAmount = min SMALL_BLIND (chips (dealt ! sbIndex));
               bbAmount = min BIG_BLIND (chips (dealt ! bbIndex));
               posted = postBlind (postBlind dealt sbIndex sbAmount) bbIndex bbAmount;
               firstToAct = sbIndex
           in Inr \<lparr>players = posted, communityCards = [], pot = sbAmount + bbAmount,
                   currentPlayerIndex = firstToAct, dealerIndex = dealerIdx,
                   phase = Preflop, currentBet = bbAmount, minRaise = BIG_BLIND,
                   deck = deck', winner = None, winningHand = None\<rparr>)"

subsection \<open>getPlayerView\<close>







subsection \<open>checkBettingRoundComplete and determineWinner\<close>

definition checkBettingRoundComplete :: "state \<Rightarrow> bool" where
  "checkBettingRoundComplete gameState =
     (let activePlayers = filter (\<lambda>p. \<not> folded p \<and> \<not> isAllIn p) (players gameState)
      in if length activePlayers = 0 then True
         else if length activePlayers = 1
                 \<and> length (filter (\<lambda>p. \<not> folded p) (players gameState)) = 1 then True
         else list_all (\<lambda>p. hasActed p \<and> currentBet_p p = currentBet gameState)
                activePlayers)"

text \<open>
  \<^verbatim>\<open>determineWinner\<close>. With no player left unfolded, \<^verbatim>\<open>playerHands[0]\<close> is
  undefined and reading its \<^verbatim>\<open>player\<close> throws. The hands are sorted with the
  comparator \<^verbatim>\<open>(a, b) => compareHands(b.hand, a.hand)\<close>, best hand first.
\<close>

definition determineWinner :: "state \<Rightarrow> error + state" where
  "determineWinner gameState =
     (let activePlayers = filter (\<lambda>p. \<not> folded p) (players gameState)
      in if length activePlayers = 1 then
           (let w = hd activePlayers
            in Inr (gameState
                 \<lparr>players := map (\<lambda>p. if id_p p = id_p w
                                        then p\<lparr>chips := chips p + pot gameState\<rparr> else p)
                               (players gameState),
                  winner := Some (id_p w, name w),
                  winningHand := Some ''Other player folded'',
                  pot := 0, phase := Showdown\<rparr>))
         else
           (let playerHands =
                  map (\<lambda>player. (player, evaluateHand (cards player) (communityCards gameState)))
                    activePlayers
            in case sort_by (\<lambda>a b. compareHands (snd b) (snd a)) playerHands of
                 [] \<Rightarrow> Inl TypeError
               | (w, h) # rest \<Rightarrow>
                   Inr (gameState
                     \<lparr>players := map (\<lambda>p. p\<lparr>chips := (if id_p p = id_p w
                                                             then chips p + pot gameState
                                                             else chips p)\<rparr>)
                                   (players gameState),
                      winner := Some (id_p w, name w),
                      winningHand := Some (name_h h),
                      pot := 0, phase := Showdown\<rparr>)))"

subsection \<open>moveToNextPhase\<close>

text \<open>The array \<^verbatim>\<open>phases\<close>: the index of a phase and the entry after it.\<close>

fun phaseIndex :: "phase \<Rightarrow> nat" where
  "phaseIndex Preflop = 0"
| "phaseIndex Flop = 1"
| "phaseIndex Turn = 2"
| "phaseIndex River = 3"
| "phaseIndex Showdown = 4"

fun nextPhase :: "phase \<Rightarrow> phase" where
  "nextPhase Preflop = Flop"
| "nextPhase Flop = Turn"
| "nextPhase Turn = River"
| "nextPhase River = Showdown"
| "nextPhase Showdown = Showdown"

text \<open>
  The community cards and the deck after the burn and the deal for the phase \<open>nxt\<close>.
  For the turn and the river the source builds \<^verbatim>\<open>{ ...cards[0], faceUp: true }\<close>; with
  nothing dealt, \<^verbatim>\<open>cards[0]\<close> is undefined and there is no such \<open>card\<close>: \<open>None\<close>.
\<close>

definition dealCommunity ::
  "phase \<Rightarrow> card list \<Rightarrow> card list \<Rightarrow> card list option \<times> card list" where
  "dealCommunity nxt community dk =
     (if nxt = Flop then
        (let (cs, remainingDeck) = dealCards (slice_from dk 1) 3
         in (Some (map (\<lambda>c. c\<lparr>faceUp := True\<rparr>) cs), remainingDeck))
      else if nxt = Turn \<or> nxt = River then
        (let (cs, remainingDeck) = dealCards (slice_from dk 1) 1
         in (case cs of
               [] \<Rightarrow> None
             | c # _ \<Rightarrow> Some (community @ [c\<lparr>faceUp := True\<rparr>]),
             remainingDeck))
      else (Some community, dk))"

text \<open>
  The loop that looks for the first seat to act. Each round tests one seat; a round
  that steps onto the dealer's seat leaves the loop without testing that seat. With
  \<open>n\<close> seats, a run of more than \<open>n\<close> rounds has found every seat folded or all-in
  and never met the dealer's index, so it goes on for ever: \<open>None\<close> once the fuel,
  which the caller sets to \<open>n\<close>, is used up.
\<close>

fun firstToActLoop :: "card player list \<Rightarrow> nat \<Rightarrow> nat \<Rightarrow> nat \<Rightarrow> nat option" where
  "firstToActLoop ps dealerIdx firstToAct 0 = None"
| "firstToActLoop ps dealerIdx firstToAct (Suc fuel) =
     (if folded (ps ! firstToAct) \<or> isAllIn (ps ! firstToAct) then
        (let firstToAct' = (firstToAct + 1) mod length ps
         in if firstToAct' = dealerIdx then Some firstToAct'
            else firstToActLoop ps dealerIdx firstToAct' fuel)
      else Some firstToAct)"

text \<open>
  \<^verbatim>\<open>moveToNextPhase\<close>. The first seat to act is computed before the test for the
  showdown, so its loop runs (and with no player throws, \<^verbatim>\<open>x % 0\<close> being
  \<^verbatim>\<open>NaN\<close>) on the way to the showdown too.
\<close>

definition moveToNextPhase :: "state \<Rightarrow> error + state" where
  "moveToNextPhase gameState =
     (if phaseIndex (phase gameState) \<ge> 4 then Inr gameState
      else
        let nxt = nextPhase (phase gameState);
            (newCommunityCards, deck') =
               dealCommunity nxt (communityCards gameState) (deck gameState);
            resetPlayers = map (\<lambda>p. p\<lparr>currentBet_p := 0, hasActed := False\<rparr>)
                             (players gameState);
            n = length (players gameState)
        in if n = 0 then Inl TypeError
           else case firstToActLoop resetPlayers (dealerIndex gameState)
                       ((dealerIndex gameState + 1) mod n) n of
             None \<Rightarrow> Inl Diverges
           | Some firstToAct \<Rightarrow>
               if nxt = Showdown then determineWinner (gameState\<lparr>phase := Showdown\<rparr>)
               else case newCommunityCards of
                 None \<Rightarrow> Inl UndefinedCard
               | Some community \<Rightarrow>
                   Inr (gameState\<lparr>phase := nxt, communityCards := community,
                          deck := deck', currentBet := 0, minRaise := BIG_BLIND,
                          players := resetPlayers, currentPlayerIndex := firstToAct\<rparr>))"

lemma phaseIndex_last: "(4 \<le> phaseIndex ph) = (ph = Showdown)"
  by (cases ph) simp_all

lemma determineWinner_phase:
  "determineWinner gs = Inr gs' \<Longrightarrow> phase gs' = Showdown"
  by (auto simp: determineWinner_def Let_def split: if_splits list.splits prod.splits)

lemma moveToNextPhase_phaseIndex:
  assumes "moveToNextPhase gs = Inr gs'" and "phase gs \<noteq> Showdown"
  shows "phaseIndex (phase gs') = Suc (phaseIndex (phase gs))"
proof (cases "nextPhase (phase gs) = Showdown")
  case True
  then have river: "phase gs = River"
    using assms(2) by (cases "phase gs") simp_all
  from assms True have "phase gs' = Showdown"
    by (auto simp: moveToNextPhase_def Let_def river phaseIndex_last
        split: if_splits option.splits prod.splits dest: determineWinner_phase)
  then show ?thesis by (simp add: river)
next
  case False
  with assms have "phase gs' = nextPhase (phase gs)"
    by (auto simp: moveToNextPhase_def Let_def phaseIndex_last
        split: if_splits option.splits prod.splits)
  then show ?thesis using assms(2) by (cases "phase gs") simp_all
qed

text \<open>
  The loop \<^verbatim>\<open>while (finalState.phase !== 'showdown') finalState =
  moveToNextPhase(finalState)\<close> of \<^verbatim>\<open>processAction\<close>. Every round that returns moves
  one phase on, which bounds it.
\<close>

function fastForward :: "state \<Rightarrow> error + state" where
  "fastForward finalState =
     (if phase finalState = Showdown then Inr finalState
      else case moveToNextPhase finalState of
             Inl e \<Rightarrow> Inl e
           | Inr s \<Rightarrow> fastForward s)"
  by pat_completeness auto
termination
proof (relation "measure (\<lambda>s. 4 - phaseIndex (phase s))")
  show "wf (measure (\<lambda>s. 4 - phaseIndex (phase s)))" by simp
next
  fix finalState :: state and s :: state
  assume "phase finalState \<noteq> Showdown" and "moveToNextPhase finalState = Inr s"
  then have "phaseIndex (phase s) = Suc (phaseIndex (phase finalState))"
    by (simp add: moveToNextPhase_phaseIndex)
  moreover have "phaseIndex (phase finalState) < 4"
    using \<open>phase finalState \<noteq> Showdown\<close> by (cases "phase finalState") simp_all
  ultimately show "(s, finalState) \<in> measure (\<lambda>s. 4 - phaseIndex (phase s))"
    by simp
qed

declare fastForward.simps [simp del]

subsection \<open>processAction\<close>

text \<open>
  The action strings \<^verbatim>\<open>'fold'\<close>, \<^verbatim>\<open>'check'\<close>, \<^verbatim>\<open>'call'\<close>, \<^verbatim>\<open>'raise'\<close> and
  \<^verbatim>\<open>'all-in'\<close>; the \<^verbatim>\<open>switch\<close> has no default branch, and any other string
  (\<open>OtherAction\<close>) changes nothing before the code after the \<^verbatim>\<open>switch\<close> runs.
\<close>

datatype action = Fold | Check | Call | Raise | AllIn | OtherAction

fun findIndex :: "('a \<Rightarrow> bool) \<Rightarrow> 'a list \<Rightarrow> nat option" where
  "findIndex P [] = None"
| "findIndex P (x # xs) = (if P x then Some 0 else map_option Suc (findIndex P xs))"

text \<open>
  The \<^verbatim>\<open>map\<close> of the raise and all-in branches: every entry but the one at
  \<open>playerIndex\<close> gets \<^verbatim>\<open>hasActed: p.folded || p.isAllIn\<close>.
\<close>

definition reopen :: "nat \<Rightarrow> card player list \<Rightarrow> card player list" where
  "reopen playerIndex ps =
     map (\<lambda>(i, p). if i = playerIndex then p else p\<lparr>hasActed := folded p \<or> isAllIn p\<rparr>)
       (enumerate 0 ps)"

text \<open>
  The \<^verbatim>\<open>switch\<close> statement and the object \<^verbatim>\<open>newState\<close> built after it.
  \<^verbatim>\<open>amount || d\<close> is \<open>d\<close> when the amount is undefined or 0.
\<close>

definition actionDelta :: "state \<Rightarrow> nat \<Rightarrow> action \<Rightarrow> int option \<Rightarrow> state" where
  "actionDelta gameState playerIndex act amount =
     (let player = players gameState ! playerIndex;
          updatedPlayers = players gameState
      in case act of
        Fold \<Rightarrow>
          gameState\<lparr>players :=
            updatedPlayers[playerIndex := player\<lparr>folded := True, hasActed := True\<rparr>]\<rparr>
      | Check \<Rightarrow>
          gameState\<lparr>players := updatedPlayers[playerIndex := player\<lparr>hasActed := True\<rparr>]\<rparr>
      | Call \<Rightarrow>
          (let callAmount = min (currentBet gameState - currentBet_p player) (chips player)
           in gameState
                \<lparr>players := updatedPlayers[playerIndex := player
                    \<lparr>chips := chips player - callAmount,
                     currentBet_p := currentBet_p player + callAmount,
                     isAllIn := (chips player - callAmount = 0),
                     hasActed := True\<rparr>],
                 pot := pot gameState + callAmount\<rparr>)
      | Raise \<Rightarrow>
          (let raiseAmount = (case amount of
                                Some a \<Rightarrow> if a \<noteq> 0 then a
                                          else currentBet gameState + minRaise gameState
                              | None \<Rightarrow> currentBet gameState + minRaise gameState);
               totalBet = min raiseAmount (chips player + currentBet_p player);
               additionalBet = totalBet - currentBet_p player
           in gameState
                \<lparr>players := reopen playerIndex (updatedPlayers[playerIndex := player
                    \<lparr>chips := chips player - additionalBet,
                     currentBet_p := totalBet,
                     isAllIn := (chips player - additionalBet = 0),
                     hasActed := True\<rparr>]),
                 pot := pot gameState + additionalBet,
                 currentBet := totalBet,
                 minRaise := max (minRaise gameState) (totalBet - currentBet gameState)\<rparr>)
      | AllIn \<Rightarrow>
          (let allInAmount = chips player;
               newBet = currentBet_p player + allInAmount;
               raised = (newBet > currentBet gameState)
           in gameState
                \<lparr>players := (if raised then reopen playerIndex updatedPlayers
                              else updatedPlayers)[playerIndex := player
                    \<lparr>chips := 0, currentBet_p := newBet, isAllIn := True,
                     hasActed := True\<rparr>],
                 pot := pot gameState + allInAmount,
                 currentBet := (if raised then newBet else currentBet gameState),
                 minRaise := (if raised
                              then max (minRaise gameState) (newBet - currentBet gameState)
                              else minRaise gameState)\<rparr>)
      | OtherAction \<Rightarrow> gameState)"

text \<open>
  The loop that moves the turn on. It tests one seat a round and has no other exit:
  after \<open>n\<close> rounds on \<open>n\<close> seats it has found every seat folded or all-in and goes
  on for ever (\<open>None\<close>; the caller sets the fuel to \<open>n\<close>).
\<close>

fun nextPlayerLoop :: "card player list \<Rightarrow> nat \<Rightarrow> nat \<Rightarrow> nat option" where
  "nextPlayerLoop ps nextPlayerIndex 0 = None"
| "nextPlayerLoop ps nextPlayerIndex (Suc fuel) =
     (if folded (ps ! nextPlayerIndex) \<or> isAllIn (ps ! nextPlayerIndex)
      then nextPlayerLoop ps ((nextPlayerIndex + 1) mod length ps) fuel
      else Some nextPlayerIndex)"

text \<open>The code of \<^verbatim>\<open>processAction\<close> after \<^verbatim>\<open>newState\<close> is built.\<close>

definition afterAction :: "state \<Rightarrow> nat \<Rightarrow> error + state" where
  "afterAction newState playerIndex =
     (let updatedPlayers = players newState;
          remainingPlayers = filter (\<lambda>p. \<not> folded p) updatedPlayers
      in if length remainingPlayers = 1 then determineWinner newState
         else if checkBettingRoundComplete newState then
           (let nonFoldedNonAllIn = filter (\<lambda>p. \<not> folded p \<and> \<not> isAllIn p) updatedPlayers
            in if length nonFoldedNonAllIn \<le> 1 then fastForward newState
               else moveToNextPhase newState)
         else
           case nextPlayerLoop updatedPlayers
                  ((playerIndex + 1) mod length updatedPlayers) (length updatedPlayers) of
             None \<Rightarrow> Inl Diverges
           | Some nextPlayerIndex \<Rightarrow>
               Inr (newState\<lparr>currentPlayerIndex := nextPlayerIndex\<rparr>))"

text \<open>
  \<^verbatim>\<open>processAction(gameState, playerId, action, amount)\<close>: an id that no player has
  returns the state it was given.
\<close>

definition processAction :: "state \<Rightarrow> string \<Rightarrow> action \<Rightarrow> int option \<Rightarrow> error + state" where
  "processAction gameState playerId act amount =
     (case findIndex (\<lambda>p. id_p p = playerId) (players gameState) of
        None \<Rightarrow> Inr gameState
      | Some playerIndex \<Rightarrow>
          afterAction (actionDelta gameState playerIndex act amount) playerIndex)"

subsection \<open>Rooms and sequences of calls\<close>

text \<open>
  The player object that \<^verbatim>\<open>createRoom\<close> and the \<^verbatim>\<open>joinRoom\<close> handler build
  (the id is a fresh \<^verbatim>\<open>uuidv4()\<close>). The \<^verbatim>\<open>nextHand\<close> handler starts the next hand
  with the same objects and the chips of the hand before, as long as two players have
  chips left.
\<close>

definition newPlayer :: "string \<Rightarrow> string \<Rightarrow> string \<Rightarrow> card player" where
  "newPlayer uuid sock playerName =
     \<lparr>id_p = uuid, socketId = sock, name = playerName, chips = INITIAL_CHIPS, cards = [],
      currentBet_p = 0, folded = False, isAllIn = False, hasActed = False,
      isConnected = True\<rparr>"

text \<open>
  The \<^verbatim>\<open>playerAction\<close> handler replaces \<^verbatim>\<open>room.gameState\<close> by the result of
  \<^verbatim>\<open>processAction\<close>, message after message; a call that throws ends the run.
\<close>

fun processActions :: "state \<Rightarrow> (string \<times> action \<times> int option) list \<Rightarrow> error + state" where
  "processActions gs [] = Inr gs"
| "processActions gs ((playerId, act, amount) # rest) =
     (case processAction gs playerId act amount of
        Inl e \<Rightarrow> Inl e
      | Inr gs' \<Rightarrow> processActions gs' rest)"

text \<open>
  The states a hand can be in: the state \<open>gs0\<close> it starts with and every state that a
  call of \<^verbatim>\<open>processAction\<close> on one of them returns, whoever makes the call and
  whatever it asks for. The calls that the \<^verbatim>\<open>playerAction\<close> handler lets through (those
  of the player whose turn it is) are among them.
\<close>

inductive reachable :: "state \<Rightarrow> state \<Rightarrow> bool" for gs0 :: state where
  reachable_start: "reachable gs0 gs0"
| reachable_step:
    "reachable gs0 gs \<Longrightarrow> processAction gs playerId act amount = Inr gs'
       \<Longrightarrow> reachable gs0 gs'"


subsection \<open>Example rooms and decks\<close>

text \<open>
  Two players who have just joined; the same two before a third hand (the dealer of
  the second was seat 1), the second player down to 15 chips, or the first down to 5;
  and a deck order on which both players play the board.
\<close>

definition Ann :: "card player" where
  "Ann = newPlayer ''a'' ''s1'' ''Ann''"

definition Bob :: "card player" where
  "Bob = newPlayer ''b'' ''s2'' ''Bob''"

definition freshRoom :: "card player list" where
  "freshRoom = [Ann, Bob]"

definition shortBigBlindRoom :: "card player list" where
  "shortBigBlindRoom = [Ann\<lparr>chips := 1985\<rparr>, Bob\<lparr>chips := 15\<rparr>]"

definition shortSmallBlindRoom :: "card player list" where
  "shortSmallBlindRoom = [Ann\<lparr>chips := 5\<rparr>, Bob\<lparr>chips := 1995\<rparr>]"

definition boardFlushTop :: "card list" where
  "boardFlushTop =
     [\<lparr>suit = Clubs, rank = R2, faceUp = False\<rparr>, \<lparr>suit = Diamonds, rank = R3, faceUp = False\<rparr>,
      \<lparr>suit = Diamonds, rank = R2, faceUp = False\<rparr>, \<lparr>suit = Clubs, rank = R3, faceUp = False\<rparr>,
      \<lparr>suit = Spades, rank = R7, faceUp = False\<rparr>,
      \<lparr>suit = Hearts, rank = RA, faceUp = False\<rparr>, \<lparr>suit = Hearts, rank = RK, faceUp = False\<rparr>,
      \<lparr>suit = Hearts, rank = RQ, faceUp = False\<rparr>,
      \<lparr>suit = Spades, rank = R8, faceUp = False\<rparr>,
      \<lparr>suit = Hearts, rank = RJ, faceUp = False\<rparr>,
      \<lparr>suit = Spades, rank = R9, faceUp = False\<rparr>,
      \<lparr>suit = Hearts, rank = R9, faceUp = False\<rparr>]"

definition boardFlushDeck :: "card list" where
  "boardFlushDeck = boardFlushTop @ filter (\<lambda>c. c \<notin> set boardFlushTop) createDeck"

section \<open>Hand evaluation: the wheel\<close>

text \<open>
  C7. \<^verbatim>\<open>evaluateHand\<close> on the hole cards ace of hearts and 2 of diamonds with the
  community cards 3 of clubs, 4 of spades, 5 of hearts, 9 of diamonds and king of clubs
  returns the category Straight; its first card is the 5 (rank value 5) and its last
  card is the ace, which \<^verbatim>\<open>findStraight\<close> holds under the value 1. The \<open>faceUp\<close>
  flags of the seven cards are arbitrary.
\<close>

theorem evaluateHand_wheel:
  "evaluateHand
     [\<lparr>suit = Hearts, rank = RA, faceUp = f1\<rparr>, \<lparr>suit = Diamonds, rank = R2, faceUp = f2\<rparr>]
     [\<lparr>suit = Clubs, rank = R3, faceUp = f3\<rparr>, \<lparr>suit = Spades, rank = R4, faceUp = f4\<rparr>,
      \<lparr>suit = Hearts, rank = R5, faceUp = f5\<rparr>, \<lparr>suit = Diamonds, rank = R9, faceUp = f6\<rparr>,
      \<lparr>suit = Clubs, rank = RK, faceUp = f7\<rparr>]
   = \<lparr>rank_h = STRAIGHT, name_h = ''Straight'',
      cards_h = [\<lparr>suit = Hearts, rank = R5, faceUp = f5\<rparr>,
                 \<lparr>suit = Spades, rank = R4, faceUp = f4\<rparr>,
                 \<lparr>suit = Clubs, rank = R3, faceUp = f3\<rparr>,
                 \<lparr>suit = Diamonds, rank = R2, faceUp = f2\<rparr>,
                 \<lparr>suit = Hearts, rank = RA, faceUp = f1\<rparr>],
      kickers = []\<rparr>
   \<and> RANK_VALUES (rank (hd (cards_h (evaluateHand
       [\<lparr>suit = Hearts, rank = RA, faceUp = f1\<rparr>, \<lparr>suit = Diamonds, rank = R2, faceUp = f2\<rparr>]
       [\<lparr>suit = Clubs, rank = R3, faceUp = f3\<rparr>, \<lparr>suit = Spades, rank = R4, faceUp = f4\<rparr>,
        \<lparr>suit = Hearts, rank = R5, faceUp = f5\<rparr>, \<lparr>suit = Diamonds, rank = R9, faceUp = f6\<rparr>,
        \<lparr>suit = Clubs, rank = RK, faceUp = f7\<rparr>])))) = 5
   \<and> map_of (uniqueRanks
       ([\<lparr>suit = Hearts, rank = RA, faceUp = f1\<rparr>, \<lparr>suit = Diamonds, rank = R2, faceUp = f2\<rparr>] @
        [\<lparr>suit = Clubs, rank = R3, faceUp = f3\<rparr>, \<lparr>suit = Spades, rank = R4, faceUp = f4\<rparr>,
         \<lparr>suit = Hearts, rank = R5, faceUp = f5\<rparr>, \<lparr>suit = Diamonds, rank = R9, faceUp = f6\<rparr>,
         \<lparr>suit = Clubs, rank = RK, faceUp = f7\<rparr>])) 1
     = Some \<lparr>suit = Hearts, rank = RA, faceUp = f1\<rparr>"
  by code_simp

theorem evaluateHand_wheel_witness:
  "rank_h (evaluateHand
     [\<lparr>suit = Hearts, rank = RA, faceUp = False\<rparr>, \<lparr>suit = Diamonds, rank = R2, faceUp = False\<rparr>]
     [\<lparr>suit = Clubs, rank = R3, faceUp = True\<rparr>, \<lparr>suit = Spades, rank = R4, faceUp = True\<rparr>,
      \<lparr>suit = Hearts, rank = R5, faceUp = True\<rparr>, \<lparr>suit = Diamonds, rank = R9, faceUp = True\<rparr>,
      \<lparr>suit = Clubs, rank = RK, faceUp = True\<rparr>]) = 5"
  using evaluateHand_wheel [of False False True True True True True]
  by (simp add: STRAIGHT_def)

section \<open>Dealing from a short deck\<close>

lemma dealCards_length:
  "length (fst (dealCards dk count)) =
     (if count < 0 then nat (int (length dk) + count) else min (nat count) (length dk))"
  by (auto simp: dealCards_def slice_def slice_index_def)

lemma dealCards_append: "fst (dealCards dk count) @ snd (dealCards dk count) = dk"
  by (auto simp: dealCards_def slice_def slice_from_def slice_index_def)

text \<open>
  C4, as the claim states it, fails: asked for two cards of a deck of one,
  \<^verbatim>\<open>dealCards\<close> returns that one card and an empty deck. It has no failing branch and
  returns fewer cards than were asked for.
\<close>

theorem dealCards_short_counterexample:
  "int (length [\<lparr>suit = Hearts, rank = R2, faceUp = False\<rparr>]) < 2
   \<and> dealCards [\<lparr>suit = Hearts, rank = R2, faceUp = False\<rparr>] 2
       = ([\<lparr>suit = Hearts, rank = R2, faceUp = False\<rparr>], [])
   \<and> int (length (fst (dealCards [\<lparr>suit = Hearts, rank = R2, faceUp = False\<rparr>] 2))) < 2"
  by (simp add: dealCards_def slice_def slice_from_def slice_index_def)

text \<open>
  C4, amended. For every deck and every count above the number of cards left,
  \<^verbatim>\<open>dealCards\<close> returns all the cards left, fewer than \<open>count\<close>, and an empty
  remaining deck.
\<close>

theorem dealCards_short:
  assumes "int (length dk) < count"
  shows "dealCards dk count = (dk, []) \<and> int (length (fst (dealCards dk count))) < count"
  using assms by (simp add: dealCards_def slice_def slice_from_def slice_index_def)

theorem dealCards_short_witness:
  "int (length ([] :: card list)) < 3
   \<and> dealCards [] 3 = ([], []) \<and> int (length (fst (dealCards [] 3))) < 3"
  using dealCards_short [of "[]" 3] by simp

section \<open>Starting a hand\<close>

lemma dealHoleCards_fields:
  "dealHoleCards ps dk = (dealt, dk') \<Longrightarrow>
     length dealt = length ps \<and> map chips dealt = map chips ps
     \<and> map id_p dealt = map id_p ps"
proof (induction ps arbitrary: dk dealt dk')
  case Nil
  then show ?case by simp
next
  case (Cons p ps)
  obtain cs rem where dc: "dealCards dk 2 = (cs, rem)"
    by (cases "dealCards dk 2")
  obtain dealt0 dk0 where r: "dealHoleCards ps rem = (dealt0, dk0)"
    by (cases "dealHoleCards ps rem")
  from Cons.IH [OF r] Cons.prems show ?case by (auto simp: dc r)
qed

lemma postBlind_length: "length (postBlind ps i a) = length ps"
  by (simp add: postBlind_def Let_def)

lemma postBlind_nth_same:
  "i < length ps \<Longrightarrow>
     chips (postBlind ps i a ! i) = chips (ps ! i) - a
     \<and> currentBet_p (postBlind ps i a ! i) = a
     \<and> isAllIn (postBlind ps i a ! i) = (chips (ps ! i) - a = 0 \<or> isAllIn (ps ! i))"
  by (simp add: postBlind_def Let_def)

lemma postBlind_nth_other: "j \<noteq> i \<Longrightarrow> postBlind ps i a ! j = ps ! j"
  by (simp add: postBlind_def Let_def)

text \<open>
  C9, as the claim states it, fails: when the player in the big blind has 15 chips,
  \<^verbatim>\<open>currentBet\<close> is the 15 that were posted and \<^verbatim>\<open>minRaise\<close> is the constant
  \<^verbatim>\<open>BIG_BLIND\<close>, 20; the two are not the same amount.
\<close>

theorem createGameState_blinds_counterexample:
  "(case createGameState shortBigBlindRoom (Some 1) createDeck of
      Inr gs \<Rightarrow> currentBet gs = 15 \<and> minRaise gs = 20
               \<and> currentBet gs \<noteq> minRaise gs \<and> currentBet gs \<noteq> BIG_BLIND
               \<and> minRaise gs \<noteq> currentBet_p (players gs ! 1)
    | Inl e \<Rightarrow> False)"
  by code_simp

text \<open>
  C9, amended. With at least one player, \<^verbatim>\<open>createGameState\<close> returns a state in
  which the small blind is the dealer's seat \<open>sb\<close> and the big blind the next seat
  \<open>bb\<close>, each posting the smaller of its blind and its chips; \<^verbatim>\<open>currentBet\<close> is the
  big blind as posted, \<^verbatim>\<open>minRaise\<close> is the constant \<^verbatim>\<open>BIG_BLIND\<close>, the pot is the
  sum of the two posted blinds and \<^verbatim>\<open>currentPlayerIndex\<close> is the small blind's seat.
\<close>

theorem createGameState_blinds:
  assumes "roomPlayers \<noteq> []"
    and "sb = (case previousDealerIndex of
                 Some d \<Rightarrow> (d + 1) mod length roomPlayers | None \<Rightarrow> 0)"
    and "bb = (sb + 1) mod length roomPlayers"
    and "sbAmount = min SMALL_BLIND (chips (roomPlayers ! sb))"
    and "bbAmount = min BIG_BLIND (chips (roomPlayers ! bb))"
  shows "\<exists>gs. createGameState roomPlayers previousDealerIndex shuffled = Inr gs
           \<and> currentBet gs = bbAmount
           \<and> minRaise gs = BIG_BLIND
           \<and> pot gs = sbAmount + bbAmount
           \<and> currentPlayerIndex gs = sb
           \<and> dealerIndex gs = sb
           \<and> phase gs = Preflop
           \<and> currentBet_p (players gs ! bb) = bbAmount
           \<and> (if sb = bb
               then chips (players gs ! sb) = chips (roomPlayers ! sb) - sbAmount - bbAmount
               else currentBet_p (players gs ! sb) = sbAmount
                  \<and> chips (players gs ! sb) = chips (roomPlayers ! sb) - sbAmount
                  \<and> chips (players gs ! bb) = chips (roomPlayers ! bb) - bbAmount)"
proof -
  obtain dealt deck' where d: "dealHoleCards roomPlayers shuffled = (dealt, deck')"
    by (cases "dealHoleCards roomPlayers shuffled")
  have len: "length dealt = length roomPlayers"
    and chs: "map chips dealt = map chips roomPlayers"
    using dealHoleCards_fields [OF d] by simp_all
  have n: "0 < length roomPlayers" using assms(1) by simp
  have sb: "sb < length roomPlayers" using assms(2) n by (simp split: option.splits)
  have bb: "bb < length roomPlayers" using assms(3) n by simp
  have ch: "chips (dealt ! i) = chips (roomPlayers ! i)" if "i < length roomPlayers" for i
    using that chs len by (metis nth_map)
  have ne: "dealt \<noteq> []" using len assms(1) by auto
  have sb': "(case previousDealerIndex of
                Some d \<Rightarrow> (d + 1) mod length dealt | None \<Rightarrow> 0) = sb"
    using assms(2) len by (simp split: option.splits)
  have bb': "(sb + 1) mod length dealt = bb"
    using assms(3) len by simp
  have sa: "min SMALL_BLIND (chips (dealt ! sb)) = sbAmount"
    using assms(4) ch [OF sb] by simp
  have ba: "min BIG_BLIND (chips (dealt ! bb)) = bbAmount"
    using assms(5) ch [OF bb] by simp
  have sbd: "sb < length dealt" and bbd: "bb < length dealt"
    using sb bb len by simp_all
  let ?posted = "postBlind (postBlind dealt sb sbAmount) bb bbAmount"
  have cg: "createGameState roomPlayers previousDealerIndex shuffled =
      Inr \<lparr>players = ?posted, communityCards = [], pot = sbAmount + bbAmount,
           currentPlayerIndex = sb, dealerIndex = sb, phase = Preflop,
           currentBet = bbAmount, minRaise = BIG_BLIND, deck = deck',
           winner = None, winningHand = None\<rparr>"
    unfolding createGameState_def d Let_def prod.case sb' bb' sa ba
    using ne by simp
  have p1: "currentBet_p (?posted ! bb) = bbAmount"
    using bbd by (simp add: postBlind_nth_same postBlind_length)
  have p2: "chips (?posted ! sb) = chips (roomPlayers ! sb) - sbAmount - bbAmount"
    if "sb = bb"
    using that sbd ch [OF sb] by (simp add: postBlind_nth_same postBlind_length)
  have p3: "currentBet_p (?posted ! sb) = sbAmount
      \<and> chips (?posted ! sb) = chips (roomPlayers ! sb) - sbAmount
      \<and> chips (?posted ! bb) = chips (roomPlayers ! bb) - bbAmount"
    if "sb \<noteq> bb"
    using that sbd bbd ch [OF sb] ch [OF bb]
    by (simp add: postBlind_nth_same postBlind_nth_other postBlind_length)
  show ?thesis
    unfolding cg using p1 p2 p3 by simp
qed

theorem createGameState_blinds_witness:
  "freshRoom \<noteq> []
   \<and> (\<exists>gs. createGameState freshRoom None createDeck = Inr gs
          \<and> currentBet gs = 20 \<and> minRaise gs = 20 \<and> pot gs = 30
          \<and> currentPlayerIndex gs = 0 \<and> dealerIndex gs = 0
          \<and> chips (players gs ! 0) = 990 \<and> chips (players gs ! 1) = 980)"
proof -
  have ne: "freshRoom \<noteq> []" by (simp add: freshRoom_def)
  have a: "(10::int) = min SMALL_BLIND (chips (freshRoom ! 0))"
    and b: "(20::int) = min BIG_BLIND (chips (freshRoom ! 1))"
    by (simp_all add: freshRoom_def Ann_def Bob_def newPlayer_def INITIAL_CHIPS_def
        SMALL_BLIND_def BIG_BLIND_def)
  have s: "(0::nat) = (case None of Some d \<Rightarrow> (d + 1) mod length freshRoom | None \<Rightarrow> 0)"
    and t: "(1::nat) = (0 + 1) mod length freshRoom"
    by (simp_all add: freshRoom_def)
  from createGameState_blinds [OF ne s t a b, of createDeck]
  obtain gs where "createGameState freshRoom None createDeck = Inr gs"
    "currentBet gs = 20" "minRaise gs = BIG_BLIND" "pot gs = 10 + 20"
    "currentPlayerIndex gs = 0" "dealerIndex gs = 0"
    "chips (players gs ! 0) = chips (freshRoom ! 0) - 10"
    "chips (players gs ! 1) = chips (freshRoom ! 1) - 20"
    by auto
  then show ?thesis
    using ne
    by (intro conjI exI [of _ gs])
      (simp_all add: BIG_BLIND_def freshRoom_def Ann_def Bob_def newPlayer_def
        INITIAL_CHIPS_def)
qed

section \<open>What a player is shown\<close>



section \<open>Finding the player of a call\<close>

lemma findIndex_None: "findIndex P xs = None \<longleftrightarrow> (\<forall>x \<in> set xs. \<not> P x)"
  by (induction xs) auto

lemma findIndex_Some:
  "findIndex P xs = Some i \<Longrightarrow> i < length xs \<and> P (xs ! i) \<and> (\<forall>j < i. \<not> P (xs ! j))"
proof (induction xs arbitrary: i)
  case Nil
  then show ?case by simp
next
  case (Cons x xs)
  show ?case
  proof (cases "P x")
    case True
    with Cons.prems show ?thesis by simp
  next
    case False
    with Cons.prems obtain k where k: "findIndex P xs = Some k" "i = Suc k" by auto
    from Cons.IH [OF k(1)] False k(2) show ?thesis
      by (auto simp: nth_Cons split: nat.splits)
  qed
qed

section \<open>Chips are neither made nor lost\<close>

subsection \<open>The action itself\<close>


lemma reopen_length: "length (reopen i ps) = length ps"
  by (simp add: reopen_def)

lemma reopen_nth:
  "j < length ps \<Longrightarrow>
     reopen i ps ! j = (if j = i then ps ! j
                        else (ps ! j)\<lparr>hasActed := folded (ps ! j) \<or> isAllIn (ps ! j)\<rparr>)"
  by (simp add: reopen_def nth_enumerate_eq)


lemma reopen_ids: "map id_p (reopen i ps) = map id_p ps"
  by (rule nth_equalityI) (simp_all add: reopen_length reopen_nth)


lemma map_id_update: "i < length ps \<Longrightarrow> id_p q = id_p (ps ! i) \<Longrightarrow> map id_p (ps[i := q]) = map id_p ps"
  by (simp add: map_update list_update_same_conv)

lemma actionDelta_ids:
  assumes "i < length (players gs)"
  shows "map id_p (players (actionDelta gs i act amount)) = map id_p (players gs)"
  using assms
  by (cases act) (simp_all add: actionDelta_def Let_def map_id_update reopen_ids reopen_length reopen_nth)


subsection \<open>Sorting keeps the elements\<close>

lemma set_insert_by: "set (insert_by cmp x ys) = insert x (set ys)"
  by (induction ys) auto

lemma set_sort_by: "set (sort_by cmp xs) = set xs"
  by (induction xs) (simp_all add: sort_by_def set_insert_by)

subsection \<open>Awarding the pot\<close>







subsection \<open>Advancing the phase\<close>





subsection \<open>A whole call\<close>




lemma same_id_same_player:
  assumes "distinct (map id_p ps)" and "w \<in> set ps" and "p \<in> set ps"
  shows "(id_p p = id_p w) = (p = w)"
  using assms by (auto simp: distinct_map dest: inj_onD)



section \<open>Conservation along a hand\<close>










section \<open>A raise reopens the betting\<close>

lemma nextPlayerLoop_steps:
  "d < fuel \<Longrightarrow> i < length ps
     \<Longrightarrow> \<not> folded (ps ! ((i + d) mod length ps))
     \<Longrightarrow> \<not> isAllIn (ps ! ((i + d) mod length ps))
     \<Longrightarrow> \<exists>k. nextPlayerLoop ps i fuel = Some k \<and> k < length ps
              \<and> \<not> folded (ps ! k) \<and> \<not> isAllIn (ps ! k)"
proof (induction d arbitrary: i fuel)
  case 0
  then obtain f where f: "fuel = Suc f" by (cases fuel) auto
  from 0 show ?case by (simp add: f)
next
  case (Suc d)
  then obtain f where f: "fuel = Suc f" and df: "d < f" by (cases fuel) auto
  show ?case
  proof (cases "folded (ps ! i) \<or> isAllIn (ps ! i)")
    case False
    with Suc.prems(2) show ?thesis by (simp add: f)
  next
    case True
    let ?i = "(i + 1) mod length ps"
    have pos: "0 < length ps" using Suc.prems(2) by linarith
    have n: "?i < length ps" using pos by simp
    have e: "(?i + d) mod length ps = (i + Suc d) mod length ps"
      by (simp add: mod_add_left_eq)
    from Suc.IH [OF df n] Suc.prems(3,4) e
    obtain k where "nextPlayerLoop ps ?i f = Some k" "k < length ps"
      "\<not> folded (ps ! k)" "\<not> isAllIn (ps ! k)"
      by auto
    with True show ?thesis by (auto simp: f)
  qed
qed

text \<open>
  With a player who can act at some seat, the loop started at any seat ends within one
  round of the table, at a player who can act.
\<close>

lemma nextPlayerLoop_finds:
  assumes "j < length ps" and "\<not> folded (ps ! j)" and "\<not> isAllIn (ps ! j)"
    and "i < length ps"
  shows "\<exists>k. nextPlayerLoop ps i (length ps) = Some k \<and> k < length ps
              \<and> \<not> folded (ps ! k) \<and> \<not> isAllIn (ps ! k)"
proof -
  let ?n = "length ps"
  let ?d = "(j + ?n - i) mod ?n"
  have pos: "0 < ?n" using assms(1) by linarith
  have d: "?d < ?n" using pos by simp
  have "(i + ?d) mod ?n = (i + (j + ?n - i)) mod ?n"
    by (simp add: mod_add_right_eq)
  also have "\<dots> = (j + ?n) mod ?n" using assms(4) by simp
  also have "\<dots> = j" using assms(1) by simp
  finally have "(i + ?d) mod ?n = j" .
  with nextPlayerLoop_steps [OF d assms(4)] assms(2,3) show ?thesis by simp
qed

lemma two_in_filter:
  assumes "i < length xs" and "j < length xs" and "i \<noteq> j" and "P (xs ! i)" and "P (xs ! j)"
  shows "2 \<le> length (filter P xs)"
proof -
  have "{i, j} \<subseteq> {k. k < length xs \<and> P (xs ! k)}" using assms by auto
  then have "card {i, j} \<le> card {k. k < length xs \<and> P (xs ! k)}"
    by (intro card_mono) simp_all
  then show ?thesis using assms(3) by (simp add: length_filter_conv_card)
qed

lemma raise_flags:
  assumes "i < length (players gs)"
  shows "length (players (actionDelta gs i Raise amount)) = length (players gs)"
    and "hasActed (players (actionDelta gs i Raise amount) ! i)"
    and "folded (players (actionDelta gs i Raise amount) ! i) = folded (players gs ! i)"
    and "phase (actionDelta gs i Raise amount) = phase gs"
    and "\<And>k. k < length (players gs) \<Longrightarrow> k \<noteq> i \<Longrightarrow>
           folded (players (actionDelta gs i Raise amount) ! k) = folded (players gs ! k)
           \<and> isAllIn (players (actionDelta gs i Raise amount) ! k) = isAllIn (players gs ! k)
           \<and> hasActed (players (actionDelta gs i Raise amount) ! k)
               = (folded (players gs ! k) \<or> isAllIn (players gs ! k))"
  using assms
  by (simp_all add: actionDelta_def Let_def reopen_length reopen_nth)

text \<open>
  C8, as the claim states it, fails in the state a raise returns when nobody else can
  act: with the big blind all-in for 15 chips, the raise of the small blind completes
  the round, the hand runs on to the showdown, and the phases on the way clear
  \<^verbatim>\<open>hasActed\<close> for every player, the one who raised too.
\<close>

theorem raise_hasActed_counterexample:
  "(case createGameState shortBigBlindRoom (Some 1) createDeck of
      Inr gs \<Rightarrow>
        id_p (players gs ! currentPlayerIndex gs) = ''a''
        \<and> (case processAction gs ''a'' Raise None of
              Inr gs' \<Rightarrow> id_p (players gs' ! 0) = ''a'' \<and> \<not> hasActed (players gs' ! 0)
                        \<and> \<not> folded (players gs' ! 0) \<and> phase gs' = Showdown
            | Inl e \<Rightarrow> False)
    | Inl e \<Rightarrow> False)"
  by code_simp

text \<open>
  C8, amended. When a player raises while some other player is neither folded nor
  all-in, \<^verbatim>\<open>processAction\<close> returns a state in which the player who raised has
  \<^verbatim>\<open>hasActed\<close> true and every other player who is neither folded nor all-in has it
  false; and unless the one who raised had folded, the phase is the same and the
  betting round is not complete.
\<close>

theorem raise_reopens_action:
  assumes "findIndex (\<lambda>p. id_p p = playerId) (players gs) = Some i"
    and "j < length (players gs)" and "j \<noteq> i"
    and "\<not> folded (players gs ! j)" and "\<not> isAllIn (players gs ! j)"
  shows "\<exists>gs'. processAction gs playerId Raise amount = Inr gs'
           \<and> length (players gs') = length (players gs)
           \<and> hasActed (players gs' ! i)
           \<and> (\<forall>k < length (players gs').
                 k \<noteq> i \<and> \<not> folded (players gs' ! k) \<and> \<not> isAllIn (players gs' ! k)
                   \<longrightarrow> \<not> hasActed (players gs' ! k))
           \<and> \<not> hasActed (players gs' ! j)
           \<and> (\<not> folded (players gs ! i)
                 \<longrightarrow> phase gs' = phase gs \<and> \<not> checkBettingRoundComplete gs')"
proof -
  let ?ns = "actionDelta gs i Raise amount"
  let ?ps = "players ?ns"
  have i: "i < length (players gs)" using assms(1) by (auto dest: findIndex_Some)
  note fl = raise_flags [OF i, where amount = amount]
  have len: "length ?ps = length (players gs)" by (rule fl(1))
  have oth: "\<not> hasActed (?ps ! k)"
    if "k < length ?ps" "k \<noteq> i" "\<not> folded (?ps ! k)" "\<not> isAllIn (?ps ! k)" for k
    using that fl(5) [of k] len by simp
  have j: "\<not> folded (?ps ! j)" "\<not> isAllIn (?ps ! j)" "\<not> hasActed (?ps ! j)"
    using fl(5) [OF assms(2,3)] assms(4,5) by simp_all
  have pa: "processAction gs playerId Raise amount = afterAction ?ns i"
    using assms(1) by (simp add: processAction_def)
  have two: "2 \<le> length (filter (\<lambda>p. \<not> folded p) ?ps)" if "\<not> folded (players gs ! i)"
    using that two_in_filter [of i ?ps j "\<lambda>p. \<not> folded p"] i assms(2,3) len j(1) fl(3)
    by simp
  show ?thesis
  proof (cases "length (filter (\<lambda>p. \<not> folded p) ?ps) = 1")
    case True
    let ?w = "hd (filter (\<lambda>p. \<not> folded p) ?ps)"
    let ?gs' = "?ns\<lparr>players := map (\<lambda>p. if id_p p = id_p ?w
                                          then p\<lparr>chips := chips p + pot ?ns\<rparr> else p) ?ps,
                     winner := Some (id_p ?w, name ?w),
                     winningHand := Some ''Other player folded'',
                     pot := 0, phase := Showdown\<rparr>"
    have r: "afterAction ?ns i = Inr ?gs'"
      using True by (simp add: afterAction_def determineWinner_def Let_def)
    have same: "hasActed (players ?gs' ! k) = hasActed (?ps ! k)
        \<and> folded (players ?gs' ! k) = folded (?ps ! k)
        \<and> isAllIn (players ?gs' ! k) = isAllIn (?ps ! k)" if "k < length ?ps" for k
      using that by simp
    have fi: "folded (players gs ! i)" using True two by fastforce
    have "length (players ?gs') = length (players gs)" using len by simp
    moreover have "hasActed (players ?gs' ! i)" using same [of i] i len fl(2) by simp
    moreover have "\<forall>k < length (players ?gs').
        k \<noteq> i \<and> \<not> folded (players ?gs' ! k) \<and> \<not> isAllIn (players ?gs' ! k)
          \<longrightarrow> \<not> hasActed (players ?gs' ! k)"
      using same oth by simp
    moreover have "\<not> hasActed (players ?gs' ! j)"
      using same [of j] assms(2) len j(3) by simp
    ultimately show ?thesis using pa r fi by (intro exI [of _ ?gs']) simp
  next
    case False
    have jm: "?ps ! j \<in> set (filter (\<lambda>p. \<not> folded p \<and> \<not> isAllIn p) ?ps)"
      using assms(2) len j by simp
    then have a0: "length (filter (\<lambda>p. \<not> folded p \<and> \<not> isAllIn p) ?ps) \<noteq> 0"
      by (metis length_0_conv empty_iff list.set(1))
    have nall: "\<not> list_all (\<lambda>p. hasActed p \<and> currentBet_p p = currentBet ?ns)
                    (filter (\<lambda>p. \<not> folded p \<and> \<not> isAllIn p) ?ps)"
      using jm j(3) by (auto simp: list_all_iff)
    have nc: "\<not> checkBettingRoundComplete ?ns"
      using False a0 nall by (simp add: checkBettingRoundComplete_def Let_def)
    have pos: "0 < length ?ps" using i len by linarith
    have n0: "(i + 1) mod length ?ps < length ?ps" using pos by simp
    from nextPlayerLoop_finds [OF _ j(1,2) n0] assms(2) len
    obtain k where k: "nextPlayerLoop ?ps ((i + 1) mod length ?ps) (length ?ps) = Some k"
      by auto
    let ?gs' = "?ns\<lparr>currentPlayerIndex := k\<rparr>"
    have r: "afterAction ?ns i = Inr ?gs'"
      using False nc k by (simp add: afterAction_def Let_def)
    have "checkBettingRoundComplete ?gs' = checkBettingRoundComplete ?ns"
      by (simp add: checkBettingRoundComplete_def)
    with nc have nc': "\<not> checkBettingRoundComplete ?gs'" by simp
    have "length (players ?gs') = length (players gs)" using len by simp
    moreover have "hasActed (players ?gs' ! i)" using fl(2) by simp
    moreover have "\<forall>k < length (players ?gs').
        k \<noteq> i \<and> \<not> folded (players ?gs' ! k) \<and> \<not> isAllIn (players ?gs' ! k)
          \<longrightarrow> \<not> hasActed (players ?gs' ! k)"
      using oth by simp
    moreover have "\<not> hasActed (players ?gs' ! j)" using j(3) by simp
    moreover have "phase ?gs' = phase gs" using fl(4) by simp
    ultimately show ?thesis using pa r nc' by (intro exI [of _ ?gs']) simp
  qed
qed

theorem raise_reopens_action_witness:
  "hasActed (players (projr (processActions (projr (createGameState freshRoom None createDeck))
        [(''a'', Call, None), (''b'', Check, None), (''b'', Check, None)])) ! 1)
   \<and> (\<exists>gs'. processAction
               (projr (processActions (projr (createGameState freshRoom None createDeck))
                  [(''a'', Call, None), (''b'', Check, None), (''b'', Check, None)]))
               ''a'' Raise None = Inr gs'
          \<and> hasActed (players gs' ! 0) \<and> \<not> hasActed (players gs' ! 1)
          \<and> \<not> checkBettingRoundComplete gs')"
proof -
  let ?flop = "projr (processActions (projr (createGameState freshRoom None createDeck))
                 [(''a'', Call, None :: int option), (''b'', Check, None), (''b'', Check, None)])"
  have f: "findIndex (\<lambda>p. id_p p = ''a'') (players ?flop) = Some 0" by code_simp
  have j: "(1::nat) < length (players ?flop)" "(1::nat) \<noteq> 0"
    "\<not> folded (players ?flop ! 1)" "\<not> isAllIn (players ?flop ! 1)"
    by code_simp+
  have a: "\<not> folded (players ?flop ! 0)" and b: "hasActed (players ?flop ! 1)"
    by code_simp+
  from raise_reopens_action [OF f j, of None] a
  obtain gs' where "processAction ?flop ''a'' Raise None = Inr gs'"
    "hasActed (players gs' ! 0)" "\<not> hasActed (players gs' ! 1)"
    "\<not> checkBettingRoundComplete gs'"
    by blast
  with b show ?thesis by blast
qed

section \<open>Requests that should be refused\<close>

lemma processAction_unknown_id:
  assumes "\<forall>p \<in> set (players gs). id_p p \<noteq> playerId"
  shows "processAction gs playerId act amount = Inr gs"
  using assms by (simp add: processAction_def findIndex_None [THEN iffD2])

lemma check_passes_turn:
  assumes "findIndex (\<lambda>p. id_p p = playerId) (players gs) = Some i"
    and "\<not> folded (players gs ! i)"
    and "j < length (players gs)" and "j \<noteq> i"
    and "\<not> folded (players gs ! j)" and "\<not> isAllIn (players gs ! j)"
    and "\<not> hasActed (players gs ! j)"
  shows "\<exists>k. processAction gs playerId Check amount
               = Inr (gs\<lparr>players := (players gs)[i := (players gs ! i)\<lparr>hasActed := True\<rparr>],
                        currentPlayerIndex := k\<rparr>)
            \<and> k < length (players gs)
            \<and> \<not> folded (players gs ! k) \<and> \<not> isAllIn (players gs ! k)"
proof -
  define ps where "ps = (players gs)[i := (players gs ! i)\<lparr>hasActed := True\<rparr>]"
  define ns where "ns = gs\<lparr>players := ps\<rparr>"
  have i: "i < length (players gs)" using assms(1) by (auto dest: findIndex_Some)
  have len: "length ps = length (players gs)" by (simp add: ps_def)
  have same: "folded (ps ! k) = folded (players gs ! k)
            \<and> isAllIn (ps ! k) = isAllIn (players gs ! k)" if "k < length (players gs)" for k
    using that by (cases "k = i") (simp_all add: ps_def)
  have pj: "ps ! j = players gs ! j" using assms(4) by (simp add: ps_def)
  have d: "actionDelta gs i Check amount = ns"
    by (simp add: actionDelta_def ns_def ps_def)
  have pa: "processAction gs playerId Check amount = afterAction ns i"
    using assms(1) d by (simp add: processAction_def)
  have pn: "players ns = ps" by (simp add: ns_def)
  have "2 \<le> length (filter (\<lambda>p. \<not> folded p) ps)"
    using two_in_filter [of i ps j "\<lambda>p. \<not> folded p"] i assms(2,3,4,5) len same [of i] pj
    by simp
  then have n1: "length (filter (\<lambda>p. \<not> folded p) ps) \<noteq> 1" by simp
  have "ps ! j \<in> set ps" using assms(3) len by simp
  then have jm: "ps ! j \<in> set (filter (\<lambda>p. \<not> folded p \<and> \<not> isAllIn p) ps)"
    using assms(5,6) pj by simp
  then have a0: "length (filter (\<lambda>p. \<not> folded p \<and> \<not> isAllIn p) ps) \<noteq> 0"
    by (metis length_0_conv empty_iff list.set(1))
  have nall: "\<not> list_all (\<lambda>p. hasActed p \<and> currentBet_p p = currentBet ns)
                  (filter (\<lambda>p. \<not> folded p \<and> \<not> isAllIn p) ps)"
    using jm assms(7) pj by (auto simp: list_all_iff)
  have nc: "\<not> checkBettingRoundComplete ns"
    using n1 a0 nall by (simp add: checkBettingRoundComplete_def Let_def pn)
  have pos: "0 < length ps" using i len by linarith
  have n0: "(i + 1) mod length ps < length ps" using pos by simp
  have aj: "\<not> folded (ps ! j)" "\<not> isAllIn (ps ! j)" using assms(5,6) pj by simp_all
  from nextPlayerLoop_finds [OF _ aj n0] assms(3) len
  obtain k where k: "nextPlayerLoop ps ((i + 1) mod length ps) (length ps) = Some k"
    "k < length ps" "\<not> folded (ps ! k)" "\<not> isAllIn (ps ! k)"
    by auto
  have "afterAction ns i = Inr (ns\<lparr>currentPlayerIndex := k\<rparr>)"
    using n1 nc k(1) by (simp add: afterAction_def Let_def pn)
  with pa k(2-4) len same [of k] show ?thesis
    by (intro exI [of _ k]) (simp add: ns_def ps_def)
qed

text \<open>
  C3, as the claim states it, fails. At the start of a hand the small blind has 10 in
  against a table bet of 20; its check is not refused: \<^verbatim>\<open>processAction\<close> returns a
  state in which the player has acted and the turn has passed on. And a call with an id
  that no player has returns the state, not an error.
\<close>

theorem processAction_rejects_counterexample:
  "(case createGameState freshRoom None createDeck of
      Inr gs \<Rightarrow>
        currentBet_p (players gs ! 0) < currentBet gs
        \<and> id_p (players gs ! 0) = ''a'' \<and> \<not> hasActed (players gs ! 0)
        \<and> currentPlayerIndex gs = 0
        \<and> (case processAction gs ''a'' Check None of
              Inr gs' \<Rightarrow> hasActed (players gs' ! 0) \<and> currentPlayerIndex gs' = 1
            | Inl e \<Rightarrow> False)
        \<and> (case processAction gs ''nobody'' Check None of
              Inr gs' \<Rightarrow> True
            | Inl e \<Rightarrow> False)
    | Inl e \<Rightarrow> False)"
  by code_simp

text \<open>
  C3, amended. \<^verbatim>\<open>processAction\<close> refuses neither of the two requests. For a
  \<^verbatim>\<open>playerId\<close> that no player has, it returns the state it was given, unchanged,
  as its result, with no error. A check is not compared with the table bet: when the
  player is not folded and some other player who is neither folded nor all-in has yet
  to act, the check is applied whatever the bets are; the result is the state with
  \<^verbatim>\<open>hasActed\<close> set for the player and the turn passed to a player who can act.
\<close>

theorem processAction_no_rejection:
  "((\<forall>p \<in> set (players gs). id_p p \<noteq> unknownId)
      \<longrightarrow> processAction gs unknownId act amount = Inr gs)
   \<and> (findIndex (\<lambda>p. id_p p = playerId) (players gs) = Some i
        \<and> \<not> folded (players gs ! i)
        \<and> j < length (players gs) \<and> j \<noteq> i
        \<and> \<not> folded (players gs ! j) \<and> \<not> isAllIn (players gs ! j)
        \<and> \<not> hasActed (players gs ! j)
      \<longrightarrow> (\<exists>k. processAction gs playerId Check amount'
                   = Inr (gs\<lparr>players := (players gs)[i := (players gs ! i)\<lparr>hasActed := True\<rparr>],
                            currentPlayerIndex := k\<rparr>)
               \<and> k < length (players gs)
               \<and> \<not> folded (players gs ! k) \<and> \<not> isAllIn (players gs ! k)))"
  using processAction_unknown_id [of gs unknownId act amount]
    check_passes_turn [of playerId gs i j amount']
  by blast

theorem processAction_no_rejection_witness:
  "processAction (projr (createGameState freshRoom None createDeck)) ''nobody'' Raise (Some 100)
     = Inr (projr (createGameState freshRoom None createDeck))
   \<and> currentBet_p (players (projr (createGameState freshRoom None createDeck)) ! 0)
       < currentBet (projr (createGameState freshRoom None createDeck))
   \<and> (\<exists>k. processAction (projr (createGameState freshRoom None createDeck)) ''a'' Check None
            = Inr ((projr (createGameState freshRoom None createDeck))
                \<lparr>players := (players (projr (createGameState freshRoom None createDeck)))
                    [0 := (players (projr (createGameState freshRoom None createDeck)) ! 0)
                            \<lparr>hasActed := True\<rparr>],
                 currentPlayerIndex := k\<rparr>))"
proof -
  let ?start = "projr (createGameState freshRoom None createDeck)"
  have "list_all (\<lambda>p. id_p p \<noteq> ''nobody'') (players ?start)" by code_simp
  then have u: "\<forall>p \<in> set (players ?start). id_p p \<noteq> ''nobody''"
    by (simp only: list_all_iff)
  have f: "findIndex (\<lambda>p. id_p p = ''a'') (players ?start) = Some 0" by code_simp
  have h: "\<not> folded (players ?start ! 0)" "(1::nat) < length (players ?start)"
    "(1::nat) \<noteq> 0" "\<not> folded (players ?start ! 1)" "\<not> isAllIn (players ?start ! 1)"
    "\<not> hasActed (players ?start ! 1)"
    by code_simp+
  have b: "currentBet_p (players ?start ! 0) < currentBet ?start" by code_simp
  note inst = processAction_no_rejection [where gs = ?start and unknownId = "''nobody''"
      and act = Raise and amount = "Some 100" and playerId = "''a''" and i = 0 and j = 1
      and amount' = None]
  from inst u have "processAction ?start ''nobody'' Raise (Some 100) = Inr ?start"
    by blast
  moreover from inst f h
  have "\<exists>k. processAction ?start ''a'' Check None
            = Inr (?start\<lparr>players := (players ?start)
                              [0 := (players ?start ! 0)\<lparr>hasActed := True\<rparr>],
                          currentPlayerIndex := k\<rparr>)"
    by blast
  ultimately show ?thesis using b by blast
qed

section \<open>Who is asked to act\<close>

text \<open>
  C6 at the start of a hand. \<^verbatim>\<open>createGameState\<close> makes the small blind the first to
  act without looking at what the blind left the player: with 5 chips the small blind
  is all-in once it is posted, and the state, in the phase preflop, has
  \<^verbatim>\<open>currentPlayerIndex\<close> at that all-in player. (The two loops that move the turn,
  in \<^verbatim>\<open>processAction\<close> and in \<^verbatim>\<open>moveToNextPhase\<close>, pass over such a player.)
\<close>

theorem createGameState_allIn_to_act:
  "\<exists>gs. createGameState shortSmallBlindRoom (Some 1) createDeck = Inr gs
      \<and> reachable gs gs
      \<and> phase gs = Preflop
      \<and> currentPlayerIndex gs = 0
      \<and> chips (players gs ! currentPlayerIndex gs) = 0
      \<and> isAllIn (players gs ! currentPlayerIndex gs)"
proof -
  let ?r = "createGameState shortSmallBlindRoom (Some 1) createDeck"
  have "case ?r of
          Inr gs \<Rightarrow> phase gs = Preflop \<and> currentPlayerIndex gs = 0
                   \<and> chips (players gs ! currentPlayerIndex gs) = 0
                   \<and> isAllIn (players gs ! currentPlayerIndex gs)
        | Inl e \<Rightarrow> False"
    by code_simp
  then obtain gs where "?r = Inr gs" "phase gs = Preflop" "currentPlayerIndex gs = 0"
    "chips (players gs ! currentPlayerIndex gs) = 0"
    "isAllIn (players gs ! currentPlayerIndex gs)"
    by (cases ?r) auto
  then show ?thesis using reachable_start by blast
qed

subsection \<open>After a call, the turn is at a player who can act\<close>

lemma nextPlayerLoop_sound:
  "nextPlayerLoop ps i fuel = Some k \<Longrightarrow> i < length ps \<Longrightarrow>
     k < length ps \<and> \<not> folded (ps ! k) \<and> \<not> isAllIn (ps ! k)"
proof (induction fuel arbitrary: i)
  case 0
  then show ?case by simp
next
  case (Suc fuel)
  have pos: "0 < length ps" using Suc.prems(2) by linarith
  show ?case
  proof (cases "folded (ps ! i) \<or> isAllIn (ps ! i)")
    case True
    with Suc.prems(1) have "nextPlayerLoop ps ((i + 1) mod length ps) fuel = Some k"
      by simp
    moreover have "(i + 1) mod length ps < length ps" using pos by simp
    ultimately show ?thesis by (rule Suc.IH)
  next
    case False
    with Suc.prems show ?thesis by simp
  qed
qed

lemma fastForward_phase: "fastForward gs = Inr gs' \<Longrightarrow> phase gs' = Showdown"
proof (induction gs rule: fastForward.induct)
  case (1 finalState)
  show ?case
  proof (cases "phase finalState = Showdown")
    case True
    with "1.prems" show ?thesis by (simp add: fastForward.simps [of finalState])
  next
    case False
    with "1.prems" obtain s where "moveToNextPhase finalState = Inr s"
      and "fastForward s = Inr gs'"
      by (auto simp: fastForward.simps [of finalState] split: sum.splits)
    with "1.IH" False show ?thesis by blast
  qed
qed

lemma seat_off_dealer:
  assumes "d < n" and "0 < u" and "u < n"
  shows "(d + u) mod n \<noteq> (d :: nat)"
proof (cases "d + u < n")
  case True
  then show ?thesis using assms(2) by simp
next
  case False
  then have "(d + u) mod n = d + u - n"
    using assms by (simp add: mod_if)
  then show ?thesis using assms(3) False by simp
qed

lemma firstToActLoop_steps:
  "t < fuel \<Longrightarrow> i < length ps
     \<Longrightarrow> \<not> folded (ps ! ((i + t) mod length ps))
     \<Longrightarrow> \<not> isAllIn (ps ! ((i + t) mod length ps))
     \<Longrightarrow> (\<And>s. 0 < s \<Longrightarrow> s \<le> t \<Longrightarrow> (i + s) mod length ps \<noteq> d)
     \<Longrightarrow> \<exists>k. firstToActLoop ps d i fuel = Some k \<and> k < length ps
              \<and> \<not> folded (ps ! k) \<and> \<not> isAllIn (ps ! k)"
proof (induction t arbitrary: i fuel)
  case 0
  then obtain f where f: "fuel = Suc f" by (cases fuel) auto
  from 0 show ?case by (simp add: f)
next
  case (Suc t)
  then obtain f where f: "fuel = Suc f" and tf: "t < f" by (cases fuel) auto
  show ?case
  proof (cases "folded (ps ! i) \<or> isAllIn (ps ! i)")
    case False
    with Suc.prems(2) show ?thesis by (simp add: f)
  next
    case True
    let ?i = "(i + 1) mod length ps"
    have pos: "0 < length ps" using Suc.prems(2) by linarith
    have n: "?i < length ps" using pos by simp
    have e: "(?i + s) mod length ps = (i + Suc s) mod length ps" for s
      by (simp add: mod_add_left_eq)
    have nd: "?i \<noteq> d" using Suc.prems(5) [of 1] by simp
    have off: "(?i + s) mod length ps \<noteq> d" if "0 < s" "s \<le> t" for s
      using Suc.prems(5) [of "Suc s"] that e by simp
    from Suc.IH [OF tf n _ _ off] Suc.prems(3,4) e [of t]
    obtain k where "firstToActLoop ps d ?i f = Some k" "k < length ps"
      "\<not> folded (ps ! k)" "\<not> isAllIn (ps ! k)"
      by auto
    with True nd show ?thesis by (auto simp: f Let_def)
  qed
qed

text \<open>
  With a player who can act at a seat other than the dealer's, the loop of
  \<^verbatim>\<open>moveToNextPhase\<close>, started at the seat after the dealer, ends at a player who
  can act.
\<close>

lemma firstToActLoop_finds:
  assumes "j < length ps" and "j \<noteq> d"
    and "\<not> folded (ps ! j)" and "\<not> isAllIn (ps ! j)"
  shows "\<exists>k. firstToActLoop ps d ((d + 1) mod length ps) (length ps) = Some k
              \<and> k < length ps \<and> \<not> folded (ps ! k) \<and> \<not> isAllIn (ps ! k)"
proof -
  let ?n = "length ps"
  let ?i = "(d + 1) mod ?n"
  let ?t = "(j + ?n - ?i) mod ?n"
  have pos: "0 < ?n" using assms(1) by linarith
  have i: "?i < ?n" using pos by simp
  have t: "?t < ?n" using pos by simp
  have "(?i + ?t) mod ?n = (?i + (j + ?n - ?i)) mod ?n"
    by (simp add: mod_add_right_eq)
  also have "\<dots> = (j + ?n) mod ?n" using i by simp
  also have "\<dots> = j" using assms(1) by simp
  finally have at: "(?i + ?t) mod ?n = j" .
  have off: "(?i + s) mod ?n \<noteq> d" if "0 < s" "s \<le> ?t" for s
  proof (cases "d < ?n")
    case False
    have "(?i + s) mod ?n < ?n" using pos by simp
    with False show ?thesis by simp
  next
    case True
    have e: "(?i + u) mod ?n = (d + Suc u) mod ?n" for u
      by (simp add: mod_add_left_eq)
    have "?t \<noteq> ?n - 1"
    proof
      assume "?t = ?n - 1"
      with at e [of "?n - 1"] pos True have "j = d" by simp
      with assms(2) show False by simp
    qed
    with t that have "Suc s < ?n" by simp
    with seat_off_dealer [OF True, of "Suc s"] e [of s] show ?thesis by simp
  qed
  from firstToActLoop_steps [OF t i _ _ off] at assms(3,4) show ?thesis by simp
qed

lemma two_of_filter:
  assumes "2 \<le> length (filter P xs)"
  shows "\<exists>i j. i < length xs \<and> j < length xs \<and> i \<noteq> j \<and> P (xs ! i) \<and> P (xs ! j)"
proof -
  let ?S = "{k. k < length xs \<and> P (xs ! k)}"
  have "2 \<le> card ?S" using assms by (simp add: length_filter_conv_card)
  then obtain T where T: "T \<subseteq> ?S" "card T = 2"
    by (metis obtain_subset_with_card_n)
  then obtain i j where "T = {i, j}" "i \<noteq> j" by (auto simp: card_2_iff)
  with T(1) show ?thesis by blast
qed

lemma moveToNextPhase_advance:
  assumes "moveToNextPhase gs = Inr gs'" and "phase gs' \<noteq> Showdown"
  shows "players gs' = map (\<lambda>p. p\<lparr>currentBet_p := 0, hasActed := False\<rparr>) (players gs)
       \<and> firstToActLoop (map (\<lambda>p. p\<lparr>currentBet_p := 0, hasActed := False\<rparr>) (players gs))
            (dealerIndex gs) ((dealerIndex gs + 1) mod length (players gs))
            (length (players gs)) = Some (currentPlayerIndex gs')"
  using assms
  by (auto simp: moveToNextPhase_def Let_def phaseIndex_last
      split: if_splits option.splits prod.splits dest: determineWinner_phase)

lemma afterAction_cases:
  assumes "afterAction ns i = Inr gs'"
  shows "determineWinner ns = Inr gs' \<or> fastForward ns = Inr gs'
       \<or> (moveToNextPhase ns = Inr gs'
          \<and> 2 \<le> length (filter (\<lambda>p. \<not> folded p \<and> \<not> isAllIn p) (players ns)))
       \<or> (\<exists>k. nextPlayerLoop (players ns) ((i + 1) mod length (players ns))
                 (length (players ns)) = Some k
              \<and> gs' = ns\<lparr>currentPlayerIndex := k\<rparr>)"
  using assms
  by (auto simp: afterAction_def Let_def split: if_splits option.splits)


text \<open>
  What follows a call by a player of the hand: if the state that \<^verbatim>\<open>processAction\<close>
  returns is not at the showdown, its \<^verbatim>\<open>currentPlayerIndex\<close> is the seat of a
  player who is neither folded nor all-in. So it is only through the state a hand
  starts in that the turn can be at a player who cannot act.
\<close>

lemma processAction_turn_can_act:
  assumes "findIndex (\<lambda>p. id_p p = playerId) (players gs) = Some i"
    and "processAction gs playerId act amount = Inr gs'"
    and "phase gs' \<noteq> Showdown"
  shows "currentPlayerIndex gs' < length (players gs')
       \<and> \<not> folded (players gs' ! currentPlayerIndex gs')
       \<and> \<not> isAllIn (players gs' ! currentPlayerIndex gs')"
proof -
  define ns where "ns = actionDelta gs i act amount"
  have i: "i < length (players gs)" using assms(1) by (auto dest: findIndex_Some)
  have "map id_p (players ns) = map id_p (players gs)"
    unfolding ns_def by (rule actionDelta_ids [OF i])
  then have "length (players ns) = length (players gs)" by (rule map_eq_imp_length_eq)
  with i have pos: "0 < length (players ns)" by linarith
  from assms(1,2) have a: "afterAction ns i = Inr gs'"
    by (simp add: processAction_def ns_def)
  from afterAction_cases [OF a]
  consider (win) "determineWinner ns = Inr gs'"
    | (ff) "fastForward ns = Inr gs'"
    | (mv) "moveToNextPhase ns = Inr gs'"
           "2 \<le> length (filter (\<lambda>p. \<not> folded p \<and> \<not> isAllIn p) (players ns))"
    | (nx) k where "nextPlayerLoop (players ns) ((i + 1) mod length (players ns))
                      (length (players ns)) = Some k"
           "gs' = ns\<lparr>currentPlayerIndex := k\<rparr>"
    by blast
  then show ?thesis
  proof cases
    case win
    from determineWinner_phase [OF win] assms(3) show ?thesis by simp
  next
    case ff
    from fastForward_phase [OF ff] assms(3) show ?thesis by simp
  next
    case mv
    let ?reset = "map (\<lambda>p. p\<lparr>currentBet_p := 0, hasActed := False\<rparr>) (players ns)"
    from two_of_filter [OF mv(2)] obtain j1 j2 where
      j: "j1 < length (players ns)" "j2 < length (players ns)" "j1 \<noteq> j2"
         "\<not> folded (players ns ! j1)" "\<not> isAllIn (players ns ! j1)"
         "\<not> folded (players ns ! j2)" "\<not> isAllIn (players ns ! j2)"
      by blast
    define j where "j = (if j1 = dealerIndex ns then j2 else j1)"
    have "j < length ?reset" "j \<noteq> dealerIndex ns"
      "\<not> folded (?reset ! j)" "\<not> isAllIn (?reset ! j)"
      using j by (simp_all add: j_def)
    from firstToActLoop_finds [OF this]
    obtain k where k: "firstToActLoop ?reset (dealerIndex ns)
        ((dealerIndex ns + 1) mod length ?reset) (length ?reset) = Some k"
      "k < length ?reset" "\<not> folded (?reset ! k)" "\<not> isAllIn (?reset ! k)"
      by blast
    from moveToNextPhase_advance [OF mv(1) assms(3)]
    have pl: "players gs' = ?reset"
      and "firstToActLoop ?reset (dealerIndex ns)
             ((dealerIndex ns + 1) mod length (players ns)) (length (players ns))
           = Some (currentPlayerIndex gs')"
      by simp_all
    with k(1) have "currentPlayerIndex gs' = k" by simp
    with k pl show ?thesis by simp
  next
    case nx
    have "(i + 1) mod length (players ns) < length (players ns)" using pos by simp
    from nextPlayerLoop_sound [OF nx(1) this] nx(2) show ?thesis by simp
  qed
qed

section \<open>The showdown between equal hands\<close>

lemma insert_by_first:
  "\<forall>y \<in> set ys. cmp x y \<le> 0 \<Longrightarrow> insert_by cmp x ys = x # ys"
  by (cases ys) simp_all

text \<open>
  The head of the sorted list is the first element that comes strictly before all
  elements in front of it and that no element behind it has to precede.
\<close>

lemma sort_by_head:
  assumes "\<forall>e \<in> set ahead. cmp e w > 0" and "\<forall>q \<in> set behind. cmp w q \<le> 0"
  shows "\<exists>rest. sort_by cmp (ahead @ w # behind) = w # rest"
  using assms(1)
proof (induction ahead)
  case Nil
  have "insert_by cmp w (sort_by cmp behind) = w # sort_by cmp behind"
    using assms(2) by (intro insert_by_first) (simp add: set_sort_by)
  then show ?case by (simp add: sort_by_def)
next
  case (Cons e ahead)
  then obtain rest where r: "sort_by cmp (ahead @ w # behind) = w # rest" by auto
  from Cons.prems have "\<not> cmp e w \<le> 0" by simp
  with r have "sort_by cmp ((e # ahead) @ w # behind) = w # insert_by cmp e rest"
    by (simp add: sort_by_def)
  then show ?case by blast
qed

text \<open>
  C2, as the claim states it, fails. On the deck \<open>boardFlushDeck\<close> both players
  check the hand down and play the board, an ace-high flush; the hands compare equal,
  and the pot of 40 goes to the first player whole: the chips end at 1020 and 980, not
  at 1000 each.
\<close>

theorem determineWinner_split_counterexample:
  "(case processActions (projr (createGameState freshRoom None boardFlushDeck))
           [(''a'', Call, None), (''b'', Check, None), (''b'', Check, None),
            (''a'', Check, None), (''b'', Check, None), (''a'', Check, None),
            (''b'', Check, None)] of
      Inr river \<Rightarrow>
        phase river = River \<and> pot river = 40 \<and> map chips (players river) = [980, 980]
        \<and> map folded (players river) = [False, False]
        \<and> compareHands
             (evaluateHand (cards (players river ! 0)) (communityCards river))
             (evaluateHand (cards (players river ! 1)) (communityCards river)) = 0
        \<and> map (\<lambda>c. RANK_VALUES (rank c))
             (cards_h (evaluateHand (cards (players river ! 0)) (communityCards river)))
           = map (\<lambda>c. RANK_VALUES (rank c))
               (cards_h (evaluateHand (cards (players river ! 1)) (communityCards river)))
        \<and> (case processAction river ''a'' Check None of
              Inr gs \<Rightarrow> phase gs = Showdown \<and> pot gs = 0
                       \<and> map chips (players gs) = [1020, 980]
                       \<and> winner gs = Some (''a'', ''Ann'')
            | Inl e \<Rightarrow> False)
    | Inl e \<Rightarrow> False)"
  by code_simp

text \<open>
  C2, amended. At a showdown between two or more unfolded players (with distinct
  ids), \<^verbatim>\<open>determineWinner\<close> gives the whole pot to one player \<open>w\<close>: the first in
  seat order whose hand beats the hand of every unfolded player seated before it and
  is beaten by the hand of none seated after it. A player seated after \<open>w\<close> whose
  hand compares equal to the hand of \<open>w\<close> gets nothing, as every other player.
\<close>

theorem determineWinner_whole_pot:
  assumes "distinct (map id_p (players gs))"
    and "filter (\<lambda>p. \<not> folded p) (players gs) = ahead @ w # behind"
    and "ahead \<noteq> [] \<or> behind \<noteq> []"
    and "\<forall>e \<in> set ahead.
           compareHands (evaluateHand (cards w) (communityCards gs))
                        (evaluateHand (cards e) (communityCards gs)) > 0"
    and "\<forall>q \<in> set behind.
           compareHands (evaluateHand (cards q) (communityCards gs))
                        (evaluateHand (cards w) (communityCards gs)) \<le> 0"
  shows "determineWinner gs =
           Inr (gs\<lparr>players := map (\<lambda>p. if p = w then p\<lparr>chips := chips p + pot gs\<rparr> else p)
                                (players gs),
                    winner := Some (id_p w, name w),
                    winningHand :=
                      Some (name_h (evaluateHand (cards w) (communityCards gs))),
                    pot := 0, phase := Showdown\<rparr>)"
proof -
  let ?act = "filter (\<lambda>p. \<not> folded p) (players gs)"
  let ?hand = "\<lambda>player. (player, evaluateHand (cards player) (communityCards gs))"
  let ?cmp = "\<lambda>a b. compareHands (snd b :: hand) (snd a)"
  have n1: "length ?act \<noteq> 1" using assms(2,3) by (cases ahead; cases behind) simp_all
  have "map ?hand ?act = map ?hand ahead @ ?hand w # map ?hand behind"
    by (simp add: assms(2))
  moreover have "\<forall>e \<in> set (map ?hand ahead). ?cmp e (?hand w) > 0"
    using assms(4) by simp
  moreover have "\<forall>q \<in> set (map ?hand behind). ?cmp (?hand w) q \<le> 0"
    using assms(5) by simp
  ultimately obtain rest where s: "sort_by ?cmp (map ?hand ?act) = ?hand w # rest"
    using sort_by_head [of "map ?hand ahead" ?cmp "?hand w" "map ?hand behind"] by auto
  have "w \<in> set ?act" by (simp only: assms(2)) simp
  then have w: "w \<in> set (players gs)" by simp
  have "map (\<lambda>p. p\<lparr>chips := (if id_p p = id_p w then chips p + pot gs else chips p)\<rparr>)
            (players gs)
      = map (\<lambda>p. if p = w then p\<lparr>chips := chips p + pot gs\<rparr> else p) (players gs)"
    by (rule map_cong) (auto simp: same_id_same_player [OF assms(1) w])
  with n1 s show ?thesis
    by (simp add: determineWinner_def Let_def)
qed

theorem determineWinner_whole_pot_witness:
  "compareHands
     (evaluateHand (cards (players (projr (processActions
          (projr (createGameState freshRoom None boardFlushDeck))
          [(''a'', Call, None), (''b'', Check, None), (''b'', Check, None),
           (''a'', Check, None), (''b'', Check, None), (''a'', Check, None),
           (''b'', Check, None)])) ! 1))
        (communityCards (projr (processActions
          (projr (createGameState freshRoom None boardFlushDeck))
          [(''a'', Call, None), (''b'', Check, None), (''b'', Check, None),
           (''a'', Check, None), (''b'', Check, None), (''a'', Check, None),
           (''b'', Check, None)]))))
     (evaluateHand (cards (players (projr (processActions
          (projr (createGameState freshRoom None boardFlushDeck))
          [(''a'', Call, None), (''b'', Check, None), (''b'', Check, None),
           (''a'', Check, None), (''b'', Check, None), (''a'', Check, None),
           (''b'', Check, None)])) ! 0))
        (communityCards (projr (processActions
          (projr (createGameState freshRoom None boardFlushDeck))
          [(''a'', Call, None), (''b'', Check, None), (''b'', Check, None),
           (''a'', Check, None), (''b'', Check, None), (''a'', Check, None),
           (''b'', Check, None)])))) = 0
   \<and> (\<exists>gs'. determineWinner (projr (processActions
          (projr (createGameState freshRoom None boardFlushDeck))
          [(''a'', Call, None), (''b'', Check, None), (''b'', Check, None),
           (''a'', Check, None), (''b'', Check, None), (''a'', Check, None),
           (''b'', Check, None)])) = Inr gs'
        \<and> map chips (players gs') = [1020, 980] \<and> pot gs' = 0)"
proof -
  let ?river = "projr (processActions (projr (createGameState freshRoom None boardFlushDeck))
          [(''a'', Call, None :: int option), (''b'', Check, None), (''b'', Check, None),
           (''a'', Check, None), (''b'', Check, None), (''a'', Check, None),
           (''b'', Check, None)])"
  let ?w = "players ?river ! 0"
  let ?q = "players ?river ! 1"
  let ?cc = "communityCards ?river"
  have d: "distinct (map id_p (players ?river))" by code_simp
  have f: "filter (\<lambda>p. \<not> folded p) (players ?river) = [] @ ?w # [?q]" by code_simp
  have n: "[] \<noteq> [] \<or> [?q] \<noteq> []" by simp
  have t: "compareHands (evaluateHand (cards ?q) ?cc) (evaluateHand (cards ?w) ?cc) = 0"
    by code_simp
  have e: "\<forall>e \<in> set []. compareHands (evaluateHand (cards ?w) ?cc)
                                       (evaluateHand (cards e) ?cc) > 0"
    by simp
  have b: "\<forall>q \<in> set [?q]. compareHands (evaluateHand (cards q) ?cc)
                                         (evaluateHand (cards ?w) ?cc) \<le> 0"
    using t by simp
  have c: "map chips (map (\<lambda>p. if p = ?w then p\<lparr>chips := chips p + pot ?river\<rparr> else p)
                        (players ?river)) = [1020, 980]"
    by code_simp
  from determineWinner_whole_pot [OF d f n e b] c t show ?thesis by simp
qed


end
